theory Spec2Isabelle
  imports Complex_Main
begin

section \<open>Errors and plain data\<close>

text \<open>
  The exceptions \<^verbatim>\<open>charts.py\<close> raises itself, and the ones raised by the Python, pandas,
  numpy and matplotlib calls it makes. The two bare \<^verbatim>\<open>Exception\<close>s of
  \<^verbatim>\<open>get_data_cols\<close> are told apart by their message.
\<close>

datatype error =
    TypeError
  | ValueError
  | IndexError
  | ZeroDivisionError
  | CouldNotFindColumn string
  | NoNumericDataColumns

datatype color = Hex string | RGBA rat rat rat rat

definition DARK24 :: "color list" where
  "DARK24 =
    [Hex ''#2E91E5'', Hex ''#E15F99'', Hex ''#1CA71C'', Hex ''#FB0D0D'', Hex ''#DA16FF'',
     Hex ''#222A2A'', Hex ''#B68100'', Hex ''#750D86'', Hex ''#EB663B'', Hex ''#511CFB'',
     Hex ''#00A08B'', Hex ''#FB00D1'', Hex ''#FC0080'', Hex ''#B2828D'', Hex ''#6C7C32'',
     Hex ''#778AAE'', Hex ''#862A16'', Hex ''#A777F1'', Hex ''#620042'', Hex ''#1616A7'',
     Hex ''#DA60CA'', Hex ''#6C4516'', Hex ''#0D2A63'', Hex ''#AF0038'']"

text \<open>
  A pandas DataFrame: the row labels (already as \<^verbatim>\<open>str\<close> prints them) and the columns in
  order, each with its name and its data. A column is numeric
  (\<^verbatim>\<open>np.issubdtype(dtype, np.number)\<close>) or of dtype object. Numbers are rationals:
  rounding of floats and missing values (NaN) in the input are outside the model.
\<close>

datatype column_data = Number "rat list" | Object "string list"

record table =
  index :: "string list"
  columns :: "(string \<times> column_data) list"

fun cells :: "column_data \<Rightarrow> nat" where
  "cells (Number xs) = length xs"
| "cells (Object xs) = length xs"

fun is_number :: "column_data \<Rightarrow> bool" where
  "is_number (Number xs) = True"
| "is_number (Object xs) = False"

text \<open>\<^verbatim>\<open>df.shape\<close>: rows and columns.\<close>

definition shape0 :: "table \<Rightarrow> nat" where
  "shape0 t = length (index t)"

definition shape1 :: "table \<Rightarrow> nat" where
  "shape1 t = length (columns t)"

text \<open>Every column of a DataFrame has one cell per row.\<close>

definition wf_table :: "table \<Rightarrow> bool" where
  "wf_table t = list_all (\<lambda>c. cells (snd c) = shape0 t) (columns t)"

definition numeric_table :: "table \<Rightarrow> bool" where
  "numeric_table t = list_all (\<lambda>c. is_number (snd c)) (columns t)"

text \<open>
  The \<^verbatim>\<open>cmap\<close> argument: a string, a matplotlib \<^verbatim>\<open>Colormap\<close> (given by the colors
  \<^verbatim>\<open>cmap(range(cmap.N)).tolist()\<close> lists), a list of colors, an object with a
  \<^verbatim>\<open>tolist\<close> method (given by what it returns), or anything else. A name other than
  \<^verbatim>\<open>dark24\<close> is looked up by \<^verbatim>\<open>plt.cm.get_cmap\<close>; the name carries what matplotlib's
  registry holds for it (\<open>None\<close>: no such colormap, matplotlib raises ValueError).
\<close>

datatype cmap_arg =
    CmapName string "color list option"
  | Colormap "color list"
  | ColorList "color list"
  | HasTolist "color list"
  | OtherCmap

datatype fig_arg = NoFig | Figure | NotAFigure

section \<open>BaseChart\<close>

record BaseChart =
  df :: table
  use_index :: bool
  steps_per_period :: int
  period_length :: int
  fig :: fig_arg

text \<open>\<^verbatim>\<open>BaseChart.validate_params\<close>.\<close>

definition BaseChart_validate_params :: "'a BaseChart_scheme \<Rightarrow> error + unit" where
  "BaseChart_validate_params self =
     (if fig self = NotAFigure then Inl TypeError else Inr ())"

text \<open>
  \<^verbatim>\<open>BaseChart.get_data_cols\<close>. The loop runs over \<^verbatim>\<open>self.df.columns\<close> and tests each
  name for membership in \<^verbatim>\<open>self.df.columns\<close> before it looks at the dtype.
\<close>

fun get_data_cols_loop ::
  "string list \<Rightarrow> (string \<times> column_data) list \<Rightarrow> string list \<Rightarrow> error + string list" where
  "get_data_cols_loop names [] data_cols = Inr data_cols"
| "get_data_cols_loop names ((col, d) # rest) data_cols =
     (if col \<notin> set names then Inl (CouldNotFindColumn col)
      else get_data_cols_loop names rest (if is_number d then data_cols @ [col] else data_cols))"

definition get_data_cols :: "'a BaseChart_scheme \<Rightarrow> error + string list" where
  "get_data_cols self =
     (case get_data_cols_loop (map fst (columns (df self))) (columns (df self)) [] of
        Inl e \<Rightarrow> Inl e
      | Inr data_cols \<Rightarrow> if data_cols = [] then Inl NoNumericDataColumns else Inr data_cols)"

text \<open>\<^verbatim>\<open>BaseChart.get_colors\<close>: the \<^verbatim>\<open>cmap\<close> argument as a list of colors.\<close>

fun BaseChart_get_colors :: "cmap_arg \<Rightarrow> error + color list" where
  "BaseChart_get_colors (CmapName name registered) =
     (if name = ''dark24'' then Inr DARK24
      else case registered of None \<Rightarrow> Inl ValueError | Some cs \<Rightarrow> Inr cs)"
| "BaseChart_get_colors (Colormap cs) = Inr cs"
| "BaseChart_get_colors (ColorList cs) = Inr cs"
| "BaseChart_get_colors (HasTolist cs) = Inr cs"
| "BaseChart_get_colors OtherCmap = Inl TypeError"

section \<open>BarChart: attributes and colors\<close>

text \<open>
  The attributes of the constructor that the computations read. \<^verbatim>\<open>n_bars\<close> is an integer;
  \<^verbatim>\<open>None\<close> is modelled as \<open>0\<close>, the other value \<^verbatim>\<open>self.n_bars or self.df.shape[1]\<close>
  replaces. \<^verbatim>\<open>figsize\<close>, \<^verbatim>\<open>title\<close>, the label sizes and \<^verbatim>\<open>kwargs\<close> are handed to
  matplotlib unchanged and are left out.
\<close>

record BarChart = BaseChart +
  orientation :: string
  sort_param :: string
  n_bars :: int
  label_bars :: bool
  cmap :: cmap_arg

text \<open>\<^verbatim>\<open>BarChart.validate_params\<close>.\<close>

definition validate_params :: "'a BarChart_scheme \<Rightarrow> error + unit" where
  "validate_params self =
     (case BaseChart_validate_params self of
        Inl e \<Rightarrow> Inl e
      | Inr u \<Rightarrow>
          if sort_param self \<notin> set [''asc'', ''desc''] then Inl ValueError
          else if orientation self \<notin> set [''h'', ''v''] then Inl ValueError
          else Inr ())"

text \<open>
  \<^verbatim>\<open>BarChart.get_colors\<close>. A Python list times \<open>k\<close> is \<open>k\<close> copies of it in a row;
  \<^verbatim>\<open>//\<close> by the length of an empty color list raises ZeroDivisionError.
\<close>

definition get_colors :: "'a BarChart_scheme \<Rightarrow> cmap_arg \<Rightarrow> error + color list" where
  "get_colors self cm =
     (case BaseChart_get_colors cm of
        Inl e \<Rightarrow> Inl e
      | Inr bar_colors \<Rightarrow>
          (let n = length bar_colors; m = shape1 (df self) in
           if m > n then
             (if n = 0 then Inl ZeroDivisionError
              else Inr (take m (concat (replicate (m div n + 1) bar_colors))))
           else Inr (take m bar_colors)))"


section \<open>The pandas calls of prepare_data\<close>

text \<open>
  A frame of floats, as \<^verbatim>\<open>prepare_data\<close> builds it: integer row labels and, per column,
  one cell per row, \<open>None\<close> for NaN.
\<close>

record frame =
  frame_index :: "int list"
  frame_columns :: "(string \<times> rat option list) list"

text \<open>\<^verbatim>\<open>len(frame)\<close> and \<^verbatim>\<open>frame.iloc[i].values\<close> (for \<open>i\<close> in range).\<close>

definition len :: "frame \<Rightarrow> nat" where
  "len fr = length (frame_index fr)"

definition iloc_values :: "frame \<Rightarrow> nat \<Rightarrow> rat option list" where
  "iloc_values fr i = map (\<lambda>c. snd c ! i) (frame_columns fr)"

text \<open>
  The cells of a numeric column as floats. A column of strings has no float cells; the
  calls below read its cells only for a table without rows, where it has none.
\<close>

fun number_values :: "column_data \<Rightarrow> rat list" where
  "number_values (Number xs) = xs"
| "number_values (Object xs) = []"

text \<open>
  \<^verbatim>\<open>rank(method="first", ascending=False)\<close> of one row of numbers: a cell's rank is one
  more than the number of larger cells plus the number of equal cells to its left.
\<close>

definition rank_first_desc :: "rat list \<Rightarrow> nat \<Rightarrow> rat" where
  "rank_first_desc row j =
     of_nat (1 + length (filter (\<lambda>x. x > row ! j) row)
               + length (filter (\<lambda>x. x = row ! j) (take j row)))"

text \<open>
  \<^verbatim>\<open>DataFrame.rank(axis=1, method="first", ascending=False)\<close> on the columns of a table of
  \<open>r\<close> rows. A row that holds strings beside numbers cannot be ordered: pandas raises
  TypeError (pandas before 2.0 catches it and ranks the numeric columns alone, which
  leaves the rank frame narrower than the value frame).
\<close>

definition table_row :: "(string \<times> column_data) list \<Rightarrow> nat \<Rightarrow> rat list" where
  "table_row cols i = map (\<lambda>c. number_values (snd c) ! i) cols"

definition rank_axis1 ::
  "(string \<times> column_data) list \<Rightarrow> nat \<Rightarrow> error + (string \<times> rat option list) list" where
  "rank_axis1 cols r =
     (if 0 < r \<and> \<not> list_all (\<lambda>c. is_number (snd c)) cols then Inl TypeError
      else Inr (map (\<lambda>j. (fst (cols ! j),
                          map (\<lambda>i. Some (rank_first_desc (table_row cols i) j)) [0..<r]))
                  [0..<length cols]))"

text \<open>\<^verbatim>\<open>.clip(upper=u)\<close> and \<^verbatim>\<open>u - frame\<close>, cell by cell; NaN stays NaN.\<close>

definition clip_upper ::
  "rat \<Rightarrow> (string \<times> rat option list) list \<Rightarrow> (string \<times> rat option list) list" where
  "clip_upper u cols = map (\<lambda>c. (fst c, map (map_option (min u)) (snd c))) cols"

definition rsub ::
  "rat \<Rightarrow> (string \<times> rat option list) list \<Rightarrow> (string \<times> rat option list) list" where
  "rsub u cols = map (\<lambda>c. (fst c, map (map_option (\<lambda>x. u - x)) (snd c))) cols"

text \<open>
  \<^verbatim>\<open>reindex(new_index)\<close>: the row of each new label, NaN where the frame has no such
  label. pandas refuses to reindex a frame whose labels repeat (ValueError).
\<close>

fun position :: "int list \<Rightarrow> int \<Rightarrow> nat option" where
  "position [] l = None"
| "position (x # xs) l = (if x = l then Some 0 else map_option Suc (position xs l))"

definition reindex_column :: "int list \<Rightarrow> int list \<Rightarrow> rat option list \<Rightarrow> rat option list" where
  "reindex_column old new_index xs =
     map (\<lambda>l. case position old l of None \<Rightarrow> None | Some p \<Rightarrow> xs ! p) new_index"

definition reindex :: "frame \<Rightarrow> int list \<Rightarrow> error + frame" where
  "reindex fr new_index =
     (if \<not> distinct (frame_index fr) then Inl ValueError
      else Inr \<lparr>frame_index = new_index,
                frame_columns =
                  map (\<lambda>c. (fst c, reindex_column (frame_index fr) new_index (snd c)))
                    (frame_columns fr)\<rparr>)"

text \<open>
  \<^verbatim>\<open>interpolate()\<close>: linear, column by column, the rows taken as equally spaced. A NaN
  between two numbers gets the value on the line through the nearest number above it
  (at row \<open>a\<close>) and the nearest below it (at row \<open>b\<close>); NaN after the last number repeats
  it; NaN before the first number stays.
\<close>

fun prev_valid :: "rat option list \<Rightarrow> nat \<Rightarrow> (nat \<times> rat) option" where
  "prev_valid ys 0 = None"
| "prev_valid ys (Suc p) =
     (case ys ! p of Some v \<Rightarrow> Some (p, v) | None \<Rightarrow> prev_valid ys p)"

fun next_valid_from :: "rat option list \<Rightarrow> nat \<Rightarrow> nat \<Rightarrow> (nat \<times> rat) option" where
  "next_valid_from ys q 0 = None"
| "next_valid_from ys q (Suc n) =
     (case ys ! q of Some v \<Rightarrow> Some (q, v) | None \<Rightarrow> next_valid_from ys (Suc q) n)"

definition next_valid :: "rat option list \<Rightarrow> nat \<Rightarrow> (nat \<times> rat) option" where
  "next_valid ys p = next_valid_from ys (Suc p) (length ys - Suc p)"

definition interpolate_at :: "rat option list \<Rightarrow> nat \<Rightarrow> rat option" where
  "interpolate_at ys p =
     (case ys ! p of
        Some v \<Rightarrow> Some v
      | None \<Rightarrow>
          (case prev_valid ys p of
             None \<Rightarrow> None
           | Some (a, va) \<Rightarrow>
               (case next_valid ys p of
                  None \<Rightarrow> Some va
                | Some (b, vb) \<Rightarrow>
                    Some (va + (vb - va) * (of_nat (p - a) / of_nat (b - a))))))"

definition interpolate_column :: "rat option list \<Rightarrow> rat option list" where
  "interpolate_column ys = map (interpolate_at ys) [0..<length ys]"

definition interpolate :: "frame \<Rightarrow> frame" where
  "interpolate fr =
     fr\<lparr>frame_columns := map (\<lambda>c. (fst c, interpolate_column (snd c))) (frame_columns fr)\<rparr>"

text \<open>\<^verbatim>\<open>index.max()\<close>; an empty index has no maximum.\<close>

fun index_max :: "int list \<Rightarrow> error + int" where
  "index_max [] = Inl ValueError"
| "index_max (x # xs) = Inr (fold max xs x)"

text \<open>\<^verbatim>\<open>range(n)\<close> for an integer \<open>n\<close>: empty when \<open>n \<le> 0\<close>.\<close>

definition range_int :: "int \<Rightarrow> int list" where
  "range_int n = map int [0..<nat n]"

section \<open>BarChart.prepare_data\<close>

text \<open>The test that guards \<^verbatim>\<open>df_rank = self.n_bars + 1 - df_rank\<close>.\<close>

definition inverted :: "'a BarChart_scheme \<Rightarrow> bool" where
  "inverted self =
     ((sort_param self = ''desc'' \<and> orientation self = ''h'')
      \<or> (sort_param self = ''asc'' \<and> orientation self = ''v''))"

text \<open>
  The rank frame before it is reindexed: ranked along the rows, clipped above at
  \<^verbatim>\<open>n_bars + 1\<close>, and subtracted from \<^verbatim>\<open>n_bars + 1\<close> when the test holds.
\<close>

definition rank_columns ::
  "'a BarChart_scheme \<Rightarrow> error + (string \<times> rat option list) list" where
  "rank_columns self =
     (case rank_axis1 (columns (df self)) (shape0 (df self)) of
        Inl e \<Rightarrow> Inl e
      | Inr ranks \<Rightarrow>
          (let clipped = clip_upper (of_int (n_bars self + 1)) ranks in
           Inr (if inverted self then rsub (of_int (n_bars self + 1)) clipped else clipped)))"

text \<open>
  \<^verbatim>\<open>BarChart.prepare_data\<close>: the row labels become \<open>0, s, 2s, ...\<close>
  (\<^verbatim>\<open>reset_index(drop=True)\<close>, then the index times \<^verbatim>\<open>steps_per_period\<close>), the ranks are
  computed, and both frames are reindexed to \<^verbatim>\<open>range(index.max() + 1)\<close> and
  interpolated.
\<close>

definition prepare_data :: "'a BarChart_scheme \<Rightarrow> error + (frame \<times> frame)" where
  "prepare_data self =
     (let t = df self;
          idx = map (\<lambda>i. int i * steps_per_period self) [0..<shape0 t]
      in case rank_columns self of
           Inl e \<Rightarrow> Inl e
         | Inr ranks \<Rightarrow>
             (case index_max idx of
                Inl e \<Rightarrow> Inl e
              | Inr mx \<Rightarrow>
                  (let df_values = \<lparr>frame_index = idx,
                                    frame_columns =
                                      map (\<lambda>c. (fst c, map Some (number_values (snd c))))
                                        (columns t)\<rparr>;
                       df_rank = \<lparr>frame_index = idx, frame_columns = ranks\<rparr>;
                       new_index = range_int (mx + 1)
                   in case reindex df_values new_index of
                        Inl e \<Rightarrow> Inl e
                      | Inr vals \<Rightarrow>
                          (case reindex df_rank new_index of
                             Inl e \<Rightarrow> Inl e
                           | Inr rks \<Rightarrow> Inr (interpolate vals, interpolate rks)))))"

section \<open>BarChart: construction\<close>

text \<open>\<^verbatim>\<open>BarChart.get_label_position\<close>.\<close>

definition get_label_position :: "'a BarChart_scheme \<Rightarrow> rat \<times> rat" where
  "get_label_position self =
     (if orientation self = ''h''
      then (6 / 10, if sort_param self = ''desc'' then 25 / 100 else 8 / 10)
      else (if sort_param self = ''desc'' then 7 / 10 else 1 / 10, 8 / 10))"

text \<open>The attributes \<^verbatim>\<open>__attrs_post_init__\<close> adds to the object.\<close>

record BarChart_object = BarChart +
  df_values :: frame
  df_rank :: frame
  orig_index :: "string list"
  fps :: rat
  x_label :: rat
  y_label :: rat
  bar_colors :: "color list"

text \<open>
  \<^verbatim>\<open>BarChart.__attrs_post_init__\<close>, which attrs runs at the end of the constructor. The
  figure it creates when none is given (\<^verbatim>\<open>create_figure\<close>, \<^verbatim>\<open>calculate_new_figsize\<close>)
  is matplotlib's work and is not modelled. Nothing here calls \<^verbatim>\<open>validate_params\<close>.
\<close>

definition attrs_post_init :: "BarChart \<Rightarrow> error + BarChart_object" where
  "attrs_post_init self0 =
     (let self = self0\<lparr>n_bars := (if n_bars self0 = 0 then int (shape1 (df self0))
                                    else n_bars self0)\<rparr>
      in case prepare_data self of
           Inl e \<Rightarrow> Inl e
         | Inr (vals, rks) \<Rightarrow>
             if period_length self = 0 then Inl ZeroDivisionError
             else
               (case get_colors self (cmap self) of
                  Inl e \<Rightarrow> Inl e
                | Inr cs \<Rightarrow>
                    Inr (BarChart.extend self
                          (BarChart_object.fields vals rks (index (df self))
                             (1000 / of_int (period_length self) * of_int (steps_per_period self))
                             (fst (get_label_position self)) (snd (get_label_position self))
                             cs))))"

section \<open>BarChart: frames\<close>

text \<open>
  What a chart has drawn on its axes: the bar containers (one per \<^verbatim>\<open>ax.bar\<close> or
  \<^verbatim>\<open>ax.barh\<close> call), the upper limit of the value axis once \<^verbatim>\<open>plot_bars\<close> has set it,
  and the texts. A text is the period label or the label of a bar, which shows the bar's
  length; where matplotlib places it is not modelled.
\<close>

record bar =
  location :: rat
  bar_length :: "rat option"
  tick_label :: string
  bar_color :: color

datatype ax_text = PeriodLabel string | BarLabel "rat option"

record axes =
  containers :: "bar list list"
  value_lim :: "rat option"
  texts :: "ax_text list"

definition new_axes :: axes where
  "new_axes = \<lparr>containers = [], value_lim = None, texts = []\<rparr>"

text \<open>\<^verbatim>\<open>BarChart.get_frames\<close>: \<^verbatim>\<open>range(len(self.df_values))\<close>.\<close>

definition get_frames :: "'a BarChart_object_scheme \<Rightarrow> nat list" where
  "get_frames self = [0..<len (df_values self)]"

text \<open>
  \<^verbatim>\<open>top_filt\<close>: a comparison with NaN is false. A boolean mask selects the entries of an
  array at the positions where it is true.
\<close>

definition top_filt :: "'a BarChart_object_scheme \<Rightarrow> nat \<Rightarrow> bool list" where
  "top_filt self i =
     map (\<lambda>l. case l of None \<Rightarrow> False
                | Some x \<Rightarrow> 0 < x \<and> x < of_int (n_bars self + 1))
       (iloc_values (df_rank self) i)"

definition boolean_mask :: "bool list \<Rightarrow> 'a list \<Rightarrow> 'a list" where
  "boolean_mask bs xs = map snd (filter fst (zip bs xs))"

text \<open>The bars of frame \<open>i\<close>: what \<^verbatim>\<open>plot_bars\<close> hands to \<^verbatim>\<open>ax.barh\<close> or \<^verbatim>\<open>ax.bar\<close>.\<close>

definition frame_bars :: "'a BarChart_object_scheme \<Rightarrow> nat \<Rightarrow> bar list" where
  "frame_bars self i =
     (let filt = top_filt self i
      in map (\<lambda>(l, x, c, k). \<lparr>location = l, bar_length = x, tick_label = c, bar_color = k\<rparr>)
           (zip (map the (boolean_mask filt (iloc_values (df_rank self) i)))
              (zip (boolean_mask filt (iloc_values (df_values self) i))
                 (zip (boolean_mask filt (map fst (columns (df self))))
                    (boolean_mask filt (bar_colors self))))))"

text \<open>numpy's \<^verbatim>\<open>max\<close>: NaN if a cell is NaN.\<close>

fun array_max :: "rat option list \<Rightarrow> error + rat option" where
  "array_max [] = Inl ValueError"
| "array_max (x # xs) =
     Inr (fold (\<lambda>y acc. case (y, acc) of (Some b, Some a) \<Rightarrow> Some (max a b) | _ \<Rightarrow> None) xs x)"

text \<open>Python's \<^verbatim>\<open>xs[j]\<close>: a negative \<open>j\<close> counts from the end.\<close>

definition getitem :: "'a list \<Rightarrow> int \<Rightarrow> error + 'a" where
  "getitem xs j =
     (let n = int (length xs); k = (if j < 0 then n + j else j)
      in if 0 \<le> k \<and> k < n then Inr (xs ! nat k) else Inl IndexError)"

text \<open>
  \<^verbatim>\<open>BarChart.plot_bars\<close> for a frame \<open>i \<ge> 0\<close>. Reading row \<open>i\<close> of a frame that has no such
  row, and masking an array with a mask of another length, raise IndexError.
\<close>

definition plot_bars :: "'a BarChart_object_scheme \<Rightarrow> nat \<Rightarrow> axes \<Rightarrow> error + axes" where
  "plot_bars self i ax =
     (if \<not> (i < len (df_rank self) \<and> i < len (df_values self)) then Inl IndexError
      else if \<not> (length (frame_columns (df_values self)) = length (frame_columns (df_rank self))
                 \<and> shape1 (df self) = length (frame_columns (df_rank self))
                 \<and> length (bar_colors self) = length (frame_columns (df_rank self)))
           then Inl IndexError
      else
        (let bars = frame_bars self i;
             ax1 = ax\<lparr>containers := containers ax @ [bars]\<rparr>
         in case array_max (map bar_length bars) of
              Inl e \<Rightarrow> Inl e
            | Inr mx \<Rightarrow>
                (let ax2 = ax1\<lparr>value_lim :=
                             map_option (\<lambda>x. x * (if orientation self = ''h'' then 11 / 10
                                                   else 116 / 100)) mx\<rparr>
                 in case (if use_index self
                          then (if steps_per_period self = 0 then Inl ZeroDivisionError
                                else case getitem (orig_index self)
                                            (int i div steps_per_period self) of
                                       Inl e \<Rightarrow> Inl e
                                     | Inr val \<Rightarrow>
                                         Inr (if texts ax2 = []
                                              then ax2\<lparr>texts := [PeriodLabel val]\<rparr>
                                              else ax2\<lparr>texts := (texts ax2)[0 := PeriodLabel val]\<rparr>))
                          else Inr ax2) of
                      Inl e \<Rightarrow> Inl e
                    | Inr ax3 \<Rightarrow>
                        Inr (if label_bars self
                             then ax3\<lparr>texts := take (if use_index self then 1 else 0) (texts ax3)
                                                 @ map (\<lambda>b. BarLabel (bar_length b)) bars\<rparr>
                             else ax3))))"

text \<open>
  \<^verbatim>\<open>BarChart.anim_func\<close>. \<^verbatim>\<open>bar.remove()\<close> takes the container out of
  \<^verbatim>\<open>ax.containers\<close>, the list the loop is running over, so the loop removes every other
  container; with the one container a frame leaves behind, it removes it.
\<close>

fun remove_containers :: "'a list \<Rightarrow> 'a list" where
  "remove_containers [] = []"
| "remove_containers [x] = []"
| "remove_containers (x # y # rest) = y # remove_containers rest"

definition anim_func :: "'a BarChart_object_scheme \<Rightarrow> nat \<Rightarrow> axes \<Rightarrow> error + axes" where
  "anim_func self i ax = plot_bars self i (ax\<lparr>containers := remove_containers (containers ax)\<rparr>)"

text \<open>\<^verbatim>\<open>BarChart.init_func\<close>.\<close>

definition init_func :: "'a BarChart_object_scheme \<Rightarrow> axes \<Rightarrow> error + axes" where
  "init_func self ax = plot_bars self 0 ax"

section \<open>animate_multiple_plots\<close>

text \<open>
  Python's \<^verbatim>\<open>max\<close> and \<^verbatim>\<open>min\<close> of a list of frame numbers: ValueError on an empty one.
\<close>

fun py_max :: "nat list \<Rightarrow> error + nat" where
  "py_max [] = Inl ValueError"
| "py_max (x # xs) = Inr (fold max xs x)"

fun py_min :: "nat list \<Rightarrow> error + nat" where
  "py_min [] = Inl ValueError"
| "py_min (x # xs) = Inr (fold min xs x)"

text \<open>Collecting the results of a loop whose body may raise: the first error ends it.\<close>

fun collect :: "(error + 'a) list \<Rightarrow> error + 'a list" where
  "collect [] = Inr []"
| "collect (Inl e # rest) = Inl e"
| "collect (Inr x # rest) = (case collect rest of Inl e \<Rightarrow> Inl e | Inr xs \<Rightarrow> Inr (x # xs))"

text \<open>
  \<^verbatim>\<open>update_all_graphs\<close>, the function \<^verbatim>\<open>FuncAnimation\<close> calls for each frame: every plot
  draws the frame on its own axes.
\<close>

definition update_all_graphs ::
  "'a BarChart_object_scheme list \<Rightarrow> nat \<Rightarrow> axes list \<Rightarrow> error + axes list" where
  "update_all_graphs plots frame axs =
     collect (map (\<lambda>(plot, ax). anim_func plot frame ax) (zip plots axs))"

text \<open>
  What \<^verbatim>\<open>animate_multiple_plots\<close> hands to \<^verbatim>\<open>FuncAnimation\<close> as \<^verbatim>\<open>frames\<close>: the least, over
  the plots, of the greatest frame number of the plot.
\<close>

definition frames_argument :: "'a BarChart_object_scheme list \<Rightarrow> error + nat" where
  "frames_argument plots =
     (case collect (map (\<lambda>plot. py_max (get_frames plot)) plots) of
        Inl e \<Rightarrow> Inl e
      | Inr ms \<Rightarrow> py_min ms)"

text \<open>
  \<^verbatim>\<open>FuncAnimation(fig, func, frames)\<close> with an integer \<^verbatim>\<open>frames\<close> plays
  \<^verbatim>\<open>range(frames)\<close>, and saving it calls \<^verbatim>\<open>func\<close> once for each of these frames, in order.
  (Before that matplotlib draws the first frame once to set the figure up; this repeated
  draw of frame 0 is left out.)
\<close>

definition FuncAnimation_frames :: "nat \<Rightarrow> nat list" where
  "FuncAnimation_frames n = [0..<n]"

fun play ::
  "'a BarChart_object_scheme list \<Rightarrow> nat list \<Rightarrow> axes list \<Rightarrow> error + axes list" where
  "play plots [] axs = Inr axs"
| "play plots (frame # rest) axs =
     (case update_all_graphs plots frame axs of
        Inl e \<Rightarrow> Inl e
      | Inr axs' \<Rightarrow> play plots rest axs')"

text \<open>
  \<^verbatim>\<open>animate_multiple_plots\<close>: the frames the animation ran through and the axes at the
  end. \<^verbatim>\<open>plt.subplots(n)\<close> raises ValueError for \<open>n = 0\<close> and returns a single axes object,
  which \<^verbatim>\<open>axes[num]\<close> cannot index (TypeError), for \<open>n = 1\<close>. Writing the file is the
  encoder's work and is not modelled.
\<close>

definition animate_multiple_plots ::
  "'a BarChart_object_scheme list \<Rightarrow> error + (nat list \<times> axes list)" where
  "animate_multiple_plots plots =
     (if length plots = 0 then Inl ValueError
      else if length plots = 1 then Inl TypeError
      else case collect (map (\<lambda>plot. init_func plot new_axes) plots) of
             Inl e \<Rightarrow> Inl e
           | Inr axs \<Rightarrow>
               if steps_per_period (hd plots) = 0 then Inl ZeroDivisionError
               else (case frames_argument plots of
                       Inl e \<Rightarrow> Inl e
                     | Inr n \<Rightarrow>
                         (case play plots (FuncAnimation_frames n) axs of
                            Inl e \<Rightarrow> Inl e
                          | Inr axs' \<Rightarrow> Inr (FuncAnimation_frames n, axs'))))"

section \<open>LineChart: construction\<close>

record LineChart = BaseChart +
  line_width :: int

text \<open>
  \<^verbatim>\<open>LineChart.__attrs_post_init__\<close>: the data columns; the figure and axes it takes over
  or creates are matplotlib's.
\<close>

definition LineChart_attrs_post_init :: "LineChart \<Rightarrow> error + string list" where
  "LineChart_attrs_post_init self = get_data_cols self"

section \<open>The frames in closed form\<close>

text \<open>
  The value the claims give to cell \<open>p\<close> of a column \<open>xs\<close> stretched by \<open>s\<close> steps per
  period: the original cell \<open>p div s\<close> when \<open>s\<close> divides \<open>p\<close>, and otherwise the point on
  the line from cell \<open>p div s\<close> to the next cell, \<open>p mod s\<close> of \<open>s\<close> steps along.
\<close>

definition lerp :: "rat list \<Rightarrow> nat \<Rightarrow> nat \<Rightarrow> rat" where
  "lerp xs s p =
     (if p mod s = 0 then xs ! (p div s)
      else xs ! (p div s)
           + (xs ! (p div s + 1) - xs ! (p div s)) * (of_nat (p mod s) / of_nat s))"

definition stretched :: "nat \<Rightarrow> rat list \<Rightarrow> rat option list" where
  "stretched s xs = map (\<lambda>p. Some (lerp xs s p)) [0..<(length xs - 1) * s + 1]"

text \<open>
  The naive rank of column \<open>j\<close> in original row \<open>i\<close>: its position when the row is sorted
  descending, ties in column order, clipped above at \<^verbatim>\<open>n_bars + 1\<close>.
\<close>

definition naive_rank :: "'a BarChart_scheme \<Rightarrow> nat \<Rightarrow> nat \<Rightarrow> rat" where
  "naive_rank self i j =
     min (of_int (n_bars self + 1)) (rank_first_desc (table_row (columns (df self)) i) j)"

text \<open>The rank of column \<open>j\<close> in original row \<open>i\<close> after the inversion rule.\<close>

definition row_rank :: "'a BarChart_scheme \<Rightarrow> nat \<Rightarrow> nat \<Rightarrow> rat" where
  "row_rank self i j =
     (if inverted self then of_int (n_bars self + 1) - naive_rank self i j
      else naive_rank self i j)"

text \<open>The number of frames of a chart of \<open>r\<close> rows at \<open>s\<close> steps per period.\<close>

definition n_frames :: "'a BaseChart_scheme \<Rightarrow> nat" where
  "n_frames self = (shape0 (df self) - 1) * nat (steps_per_period self) + 1"

section \<open>Example charts\<close>

text \<open>Two rows, three columns, two steps per period: three frames.\<close>

definition two_rows :: table where
  "two_rows = \<lparr>index = [''2020'', ''2021''],
               columns = [(''a'', Number [1, 5]), (''b'', Number [4, 2]), (''c'', Number [4, 8])]\<rparr>"

definition two_rows_chart :: BarChart where
  "two_rows_chart =
     \<lparr>df = two_rows, use_index = True, steps_per_period = 2, period_length = 500, fig = NoFig,
      orientation = ''h'', sort_param = ''desc'', n_bars = 2, label_bars = True,
      cmap = ColorList [Hex ''c0'', Hex ''c1'']\<rparr>"

text \<open>Five columns, to be colored from three colors.\<close>

definition five_columns :: table where
  "five_columns =
     \<lparr>index = [''0''],
      columns = [(''a'', Number [5]), (''b'', Number [4]), (''c'', Number [3]),
                 (''d'', Number [2]), (''e'', Number [1])]\<rparr>"

definition five_columns_chart :: BarChart where
  "five_columns_chart =
     \<lparr>df = five_columns, use_index = False, steps_per_period = 1, period_length = 500,
      fig = NoFig, orientation = ''v'', sort_param = ''asc'', n_bars = 0, label_bars = False,
      cmap = ColorList [Hex ''c0'', Hex ''c1'', Hex ''c2'']\<rparr>"

text \<open>The object the constructor builds from \<open>two_rows_chart\<close>.\<close>

definition two_rows_object :: BarChart_object where
  "two_rows_object =
     \<lparr>df = two_rows, use_index = True, steps_per_period = 2, period_length = 500, fig = NoFig,
      orientation = ''h'', sort_param = ''desc'', n_bars = 2, label_bars = True,
      cmap = ColorList [Hex ''c0'', Hex ''c1''],
      df_values =
        \<lparr>frame_index = [0, 1, 2],
         frame_columns = [(''a'', [Some 1, Some 3, Some 5]),
                          (''b'', [Some 4, Some 3, Some 2]),
                          (''c'', [Some 4, Some 6, Some 8])]\<rparr>,
      df_rank =
        \<lparr>frame_index = [0, 1, 2],
         frame_columns = [(''a'', [Some 0, Some (1 / 2), Some 1]),
                          (''b'', [Some 2, Some 1, Some 0]),
                          (''c'', [Some 1, Some (3 / 2), Some 2])]\<rparr>,
      orig_index = [''2020'', ''2021''], fps = 4, x_label = 3 / 5, y_label = 1 / 4,
      bar_colors = [Hex ''c0'', Hex ''c1'', Hex ''c0'']\<rparr>"

text \<open>The same table at nine and at fourteen steps per period: ten and fifteen frames.\<close>

definition ten_frames_chart :: BarChart where
  "ten_frames_chart = two_rows_chart\<lparr>steps_per_period := 9\<rparr>"

definition fifteen_frames_chart :: BarChart where
  "fifteen_frames_chart = two_rows_chart\<lparr>steps_per_period := 14\<rparr>"

text \<open>Arguments \<^verbatim>\<open>validate_params\<close> refuses.\<close>

definition bad_sort_chart :: BarChart where
  "bad_sort_chart = two_rows_chart\<lparr>sort_param := ''up''\<rparr>"

definition bad_orientation_chart :: BarChart where
  "bad_orientation_chart = two_rows_chart\<lparr>orientation := ''x''\<rparr>"

text \<open>A table with a numeric column and a column of strings.\<close>

definition mixed_table :: table where
  "mixed_table = \<lparr>index = [''0'', ''1''],
                  columns = [(''a'', Number [1, 5]), (''name'', Object [''x'', ''y''])]\<rparr>"

definition mixed_chart :: BarChart where
  "mixed_chart = two_rows_chart\<lparr>df := mixed_table, n_bars := 0\<rparr>"

definition mixed_line_chart :: LineChart where
  "mixed_line_chart =
     \<lparr>df = mixed_table, use_index = True, steps_per_period = 2, period_length = 500,
      fig = NoFig, line_width = 2\<rparr>"

section \<open>Colors\<close>

lemma length_concat_replicate:
  "length (concat (replicate k xs)) = k * length xs"
  by (induction k) simp_all

lemma nth_concat_replicate:
  "j < k * length xs \<Longrightarrow> concat (replicate k xs) ! j = xs ! (j mod length xs)"
proof (induction k arbitrary: j)
  case 0
  then show ?case by simp
next
  case (Suc k)
  show ?case
  proof (cases "j < length xs")
    case True
    then show ?thesis by (simp add: nth_append)
  next
    case False
    with Suc.prems have "j - length xs < k * length xs" by simp
    from Suc.IH [OF this] False show ?thesis
      by (simp add: nth_append le_mod_geq)
  qed
qed

lemma cyclic_take:
  assumes "xs \<noteq> []" and "m \<le> k * length xs"
  shows "take m (concat (replicate k xs)) = map (\<lambda>j. xs ! (j mod length xs)) [0..<m]"
proof (rule nth_equalityI)
  show "length (take m (concat (replicate k xs))) =
        length (map (\<lambda>j. xs ! (j mod length xs)) [0..<m])"
    using assms by (simp add: length_concat_replicate)
next
  fix i
  assume "i < length (take m (concat (replicate k xs)))"
  then have "i < m" and "i < k * length xs"
    using assms by (simp_all add: length_concat_replicate)
  then show "take m (concat (replicate k xs)) ! i =
             map (\<lambda>j. xs ! (j mod length xs)) [0..<m] ! i"
    by (simp add: nth_concat_replicate)
qed

lemma take_as_cycle:
  assumes "m \<le> length xs"
  shows "take m xs = map (\<lambda>j. xs ! (j mod length xs)) [0..<m]"
  using assms by (intro nth_equalityI) simp_all

text \<open>
  Claim C9. With a supplied list of \<open>c \<ge> 1\<close> colors and a table of \<open>m\<close> columns,
  \<^verbatim>\<open>get_colors\<close> returns \<open>m\<close> colors, column \<open>j\<close> getting color \<open>j mod c\<close>: the supplied
  colors repeated cyclically and cut to length \<open>m\<close>.
\<close>

theorem get_colors_cyclic:
  assumes "cs \<noteq> []"
  shows "get_colors self (ColorList cs) =
           Inr (map (\<lambda>j. cs ! (j mod length cs)) [0..<shape1 (df self)])"
proof (cases "shape1 (df self) > length cs")
  case True
  have "shape1 (df self) \<le> (shape1 (df self) div length cs + 1) * length cs"
    using assms by (metis Suc_eq_plus1 dividend_less_div_times length_greater_0_conv
        less_imp_le_nat mult.commute mult_Suc_right)
  from cyclic_take [OF assms this] True assms show ?thesis
    by (simp add: get_colors_def Let_def)
next
  case False
  then have "shape1 (df self) \<le> length cs" by simp
  from take_as_cycle [OF this] False show ?thesis
    by (simp add: get_colors_def Let_def)
qed

theorem get_colors_cyclic_witness:
  "[Hex ''c0'', Hex ''c1'', Hex ''c2''] \<noteq> []
   \<and> get_colors five_columns_chart (ColorList [Hex ''c0'', Hex ''c1'', Hex ''c2''])
       = Inr [Hex ''c0'', Hex ''c1'', Hex ''c2'', Hex ''c0'', Hex ''c1'']"
proof -
  have ne: "[Hex ''c0'', Hex ''c1'', Hex ''c2''] \<noteq> []" by simp
  have m: "[0..<shape1 (df five_columns_chart)] = [0, 1, 2, 3, 4]"
    by (simp add: five_columns_chart_def five_columns_def shape1_def upt_rec)
  from get_colors_cyclic [OF ne, of five_columns_chart] ne show ?thesis
    unfolding m by simp
qed

section \<open>Reindexing and interpolating a column\<close>

lemma position_None: "l \<notin> set xs \<Longrightarrow> position xs l = None"
  by (induction xs) auto

lemma position_nth:
  "distinct xs \<Longrightarrow> p < length xs \<Longrightarrow> position xs (xs ! p) = Some p"
proof (induction xs arbitrary: p)
  case Nil
  then show ?case by simp
next
  case (Cons x xs)
  show ?case
  proof (cases p)
    case 0
    then show ?thesis by simp
  next
    case (Suc q)
    with Cons.prems have "q < length xs" and "xs ! q \<noteq> x" and "distinct xs"
      by auto
    with Cons.IH [of q] Suc show ?thesis by simp
  qed
qed

lemma prev_valid_found:
  "a < p \<Longrightarrow> ys ! a = Some v \<Longrightarrow> (\<And>q. a < q \<Longrightarrow> q < p \<Longrightarrow> ys ! q = None)
     \<Longrightarrow> prev_valid ys p = Some (a, v)"
proof (induction p)
  case 0
  then show ?case by simp
next
  case (Suc p)
  show ?case
  proof (cases "a = p")
    case True
    with Suc.prems show ?thesis by simp
  next
    case False
    with Suc.prems have "a < p" by simp
    moreover have "ys ! p = None" using Suc.prems(3) [of p] \<open>a < p\<close> by simp
    ultimately show ?thesis using Suc by simp
  qed
qed

lemma next_valid_from_found:
  "q \<le> b \<Longrightarrow> b < q + n \<Longrightarrow> ys ! b = Some v \<Longrightarrow> (\<And>i. q \<le> i \<Longrightarrow> i < b \<Longrightarrow> ys ! i = None)
     \<Longrightarrow> next_valid_from ys q n = Some (b, v)"
proof (induction n arbitrary: q)
  case 0
  then show ?case by simp
next
  case (Suc n)
  show ?case
  proof (cases "q = b")
    case True
    with Suc.prems show ?thesis by simp
  next
    case False
    with Suc.prems have "Suc q \<le> b" "b < Suc q + n" by simp_all
    moreover have "ys ! q = None" using Suc.prems(4) [of q] False Suc.prems(1) by simp
    ultimately show ?thesis using Suc.IH [of "Suc q"] Suc.prems by simp
  qed
qed

lemma next_valid_found:
  "p < b \<Longrightarrow> b < length ys \<Longrightarrow> ys ! b = Some v \<Longrightarrow> (\<And>i. p < i \<Longrightarrow> i < b \<Longrightarrow> ys ! i = None)
     \<Longrightarrow> next_valid ys p = Some (b, v)"
  unfolding next_valid_def
  by (rule next_valid_from_found) auto


lemma range_int_Suc: "range_int (int M + 1) = map int [0..<Suc M]"
  by (simp add: range_int_def nat_add_distrib del: upt_Suc)

lemma distinct_scaled:
  assumes "0 < s"
  shows "distinct (map (\<lambda>i. int i * int s) [0..<r])"
  using assms by (simp add: distinct_map inj_on_def)

lemma position_scaled_hit:
  assumes "0 < s" and "k < r"
  shows "position (map (\<lambda>i. int i * int s) [0..<r]) (int (k * s)) = Some k"
proof -
  let ?idx = "map (\<lambda>i. int i * int s) [0..<r]"
  have "?idx ! k = int (k * s)" using assms by simp
  moreover have "position ?idx (?idx ! k) = Some k"
    using assms by (intro position_nth distinct_scaled) simp_all
  ultimately show ?thesis by simp
qed

lemma position_scaled_miss:
  assumes "p mod s \<noteq> 0"
  shows "position (map (\<lambda>i. int i * int s) [0..<r]) (int p) = None"
proof (rule position_None)
  show "int p \<notin> set (map (\<lambda>i. int i * int s) [0..<r])"
  proof
    assume "int p \<in> set (map (\<lambda>i. int i * int s) [0..<r])"
    then obtain i where "int p = int i * int s" by auto
    then have "p = i * s" by (metis of_nat_eq_iff of_nat_mult)
    with assms show False by simp
  qed
qed

lemma reindex_column_scaled:
  assumes "0 < s" and "p \<le> (length xs - 1) * s" and "xs \<noteq> []"
  shows "reindex_column (map (\<lambda>i. int i * int s) [0..<length xs])
           (range_int (int ((length xs - 1) * s) + 1)) (map Some xs) ! p
         = (if p mod s = 0 then Some (xs ! (p div s)) else None)"
proof -
  let ?r = "length xs"
  have lt: "p < Suc ((?r - 1) * s)" using assms by simp
  have nth: "map int [0..<Suc ((?r - 1) * s)] ! p = int p"
    using lt by (simp del: upt_Suc)
  show ?thesis
  proof (cases "p mod s = 0")
    case True
    then have p: "p = (p div s) * s" by auto
    have "p div s \<le> ?r - 1" using assms(1,2)
      by (metis div_le_mono nonzero_mult_div_cancel_right less_numeral_extra(3))
    then have k: "p div s < ?r" using assms(3) by (cases xs) auto
    have "position (map (\<lambda>i. int i * int s) [0..<?r]) (int p) = Some (p div s)"
      using position_scaled_hit [OF assms(1) k] p by simp
    then show ?thesis using True k lt nth
      unfolding reindex_column_def range_int_Suc by (simp del: upt_Suc)
  next
    case False
    from position_scaled_miss [OF this] False lt nth show ?thesis
      unfolding reindex_column_def range_int_Suc by (simp del: upt_Suc)
  qed
qed

lemma length_reindex_column_scaled:
  "length (reindex_column old (range_int (int M + 1)) ys) = Suc M"
  unfolding reindex_column_def range_int_Suc by (simp del: upt_Suc)


lemma interpolate_at_scaled:
  assumes s: "0 < s" and ne: "xs \<noteq> []" and p: "p \<le> (length xs - 1) * s"
  defines "R \<equiv> reindex_column (map (\<lambda>i. int i * int s) [0..<length xs])
                 (range_int (int ((length xs - 1) * s) + 1)) (map Some xs)"
  shows "interpolate_at R p = Some (lerp xs s p)"
proof -
  let ?M = "(length xs - 1) * s"
  have R_nth: "R ! q = (if q mod s = 0 then Some (xs ! (q div s)) else None)"
    if "q \<le> ?M" for q
    unfolding R_def using reindex_column_scaled [OF s that ne] .
  have R_len: "length R = Suc ?M"
    unfolding R_def by (rule length_reindex_column_scaled)
  show ?thesis
  proof (cases "p mod s = 0")
    case True
    then show ?thesis using R_nth [OF p] by (simp add: interpolate_at_def lerp_def)
  next
    case False
    define k where "k = p div s"
    define t where "t = p mod s"
    have pk: "p = k * s + t" by (simp add: k_def t_def)
    have t: "0 < t" "t < s" using False s by (simp_all add: t_def)
    have "k < length xs - 1"
    proof (rule ccontr)
      assume "\<not> k < length xs - 1"
      then have "(length xs - 1) * s \<le> k * s" by simp
      with pk p t show False by simp
    qed
    then have k1: "Suc k \<le> length xs - 1" by simp
    then have b: "Suc k * s \<le> ?M" by (rule mult_le_mono1)
    have "k \<le> length xs - 1" using k1 by simp
    then have a: "k * s \<le> ?M" by (rule mult_le_mono1)
    have between: "R ! q = None" if "k * s < q" "q < Suc k * s" for q
    proof -
      have "q \<le> ?M" using that b by simp
      moreover have "q mod s \<noteq> 0"
      proof
        assume "q mod s = 0"
        then have "s dvd q" by (simp add: dvd_eq_mod_eq_0)
        then obtain c where c: "q = c * s" by (auto simp: dvd_def mult.commute)
        from that have "k * s < c * s" and "c * s < Suc k * s" unfolding c by blast+
        then have "k < c" and "c < Suc k" using s by (simp_all only: mult_less_cancel2)
        then show False by simp
      qed
      ultimately show ?thesis using R_nth by simp
    qed
    have Ra: "R ! (k * s) = Some (xs ! k)" using R_nth [OF a] s by simp
    have Rb: "R ! (Suc k * s) = Some (xs ! Suc k)" using R_nth [OF b] s by simp
    have Rp: "R ! p = None" using R_nth [OF p] False by simp
    have lo: "k * s < p" using pk t by simp
    have hi: "p < Suc k * s" using pk t by simp
    have prev: "prev_valid R p = Some (k * s, xs ! k)"
      using lo Ra
    proof (rule prev_valid_found)
      fix q assume "k * s < q" "q < p"
      then show "R ! q = None" using between hi by simp
    qed
    have nxt: "next_valid R p = Some (Suc k * s, xs ! Suc k)"
    proof (rule next_valid_found [OF hi _ Rb])
      show "Suc k * s < length R" using b R_len by simp
    next
      fix i assume "p < i" "i < Suc k * s"
      then show "R ! i = None" using between lo by simp
    qed
    have "p - k * s = t" "Suc k * s - k * s = s" using pk by simp_all
    then show ?thesis using Rp prev nxt False
      by (simp add: interpolate_at_def lerp_def k_def [symmetric] t_def [symmetric])
  qed
qed

lemma interpolate_stretched:
  assumes "0 < s" and "xs \<noteq> []"
  shows "interpolate_column
           (reindex_column (map (\<lambda>i. int i * int s) [0..<length xs])
              (range_int (int ((length xs - 1) * s) + 1)) (map Some xs))
         = stretched s xs"
proof -
  define M where "M = (length xs - 1) * s"
  define R where "R = reindex_column (map (\<lambda>i. int i * int s) [0..<length xs])
                        (range_int (int M + 1)) (map Some xs)"
  have len: "length R = Suc M"
    unfolding R_def by (rule length_reindex_column_scaled)
  have at: "interpolate_at R p = Some (lerp xs s p)" if "p \<le> M" for p
    using interpolate_at_scaled [OF assms, of p] that unfolding R_def M_def by simp
  have "interpolate_column R = stretched s xs"
  proof (rule nth_equalityI)
    show "length (interpolate_column R) = length (stretched s xs)"
      using len by (simp add: interpolate_column_def stretched_def M_def)
  next
    fix p
    assume "p < length (interpolate_column R)"
    then have p: "p < Suc M" using len by (simp add: interpolate_column_def)
    then have "p \<le> M" by simp
    from at [OF this] p len show "interpolate_column R ! p = stretched s xs ! p"
      unfolding interpolate_column_def stretched_def M_def [symmetric]
      by (simp del: upt_Suc)
  qed
  then show ?thesis unfolding R_def M_def .
qed


lemma index_max_Max: "xs \<noteq> [] \<Longrightarrow> index_max xs = Inr (Max (set xs))"
  by (cases xs) (simp_all add: Max.set_eq_fold del: set_simps)

lemma index_max_scaled:
  assumes "0 < r" and "0 < s"
  shows "index_max (map (\<lambda>i. int i * int s) [0..<r]) = Inr (int ((r - 1) * s))"
proof -
  let ?idx = "map (\<lambda>i. int i * int s) [0..<r]"
  have ne: "?idx \<noteq> []" using assms by simp
  have "Max (set ?idx) = int ((r - 1) * s)"
  proof (rule Max_eqI)
    show "finite (set ?idx)" by simp
  next
    fix y assume "y \<in> set ?idx"
    then obtain i where "i < r" "y = int i * int s" by auto
    then have "i \<le> r - 1" by simp
    then have "i * s \<le> (r - 1) * s" by (rule mult_le_mono1)
    then show "y \<le> int ((r - 1) * s)" using \<open>y = int i * int s\<close>
      by (metis of_nat_le_iff of_nat_mult)
  next
    have "r - 1 \<in> set [0..<r]" using assms by simp
    then have "(\<lambda>i. int i * int s) (r - 1) \<in> (\<lambda>i. int i * int s) ` set [0..<r]"
      by (rule imageI)
    then show "int ((r - 1) * s) \<in> set ?idx" by (simp only: set_map of_nat_mult)
  qed
  with index_max_Max [OF ne] show ?thesis by simp
qed

lemma rank_columns_closed:
  assumes "numeric_table (df self)"
  shows "rank_columns self =
           Inr (map (\<lambda>j. (fst (columns (df self) ! j),
                          map Some (map (\<lambda>i. row_rank self i j) [0..<shape0 (df self)])))
                  [0..<shape1 (df self)])"
  using assms
  by (simp add: rank_columns_def rank_axis1_def numeric_table_def clip_upper_def rsub_def
      row_rank_def naive_rank_def shape1_def Let_def comp_def)


lemma length_number_values:
  assumes "wf_table t" and "numeric_table t" and "c \<in> set (columns t)"
  shows "length (number_values (snd c)) = shape0 t"
proof -
  from assms have "cells (snd c) = shape0 t" and "is_number (snd c)"
    by (simp_all add: wf_table_def numeric_table_def list_all_iff)
  then show ?thesis by (cases "snd c") simp_all
qed

lemma prepare_data_closed:
  assumes wf: "wf_table (df self)" and num: "numeric_table (df self)"
    and r: "0 < shape0 (df self)" and s: "0 < steps_per_period self"
  shows "prepare_data self =
     Inr (\<lparr>frame_index = map int [0..<n_frames self],
            frame_columns =
              map (\<lambda>c. (fst c, stretched (nat (steps_per_period self)) (number_values (snd c))))
                (columns (df self))\<rparr>,
          \<lparr>frame_index = map int [0..<n_frames self],
            frame_columns =
              map (\<lambda>j. (fst (columns (df self) ! j),
                         stretched (nat (steps_per_period self))
                           (map (\<lambda>i. row_rank self i j) [0..<shape0 (df self)])))
                [0..<shape1 (df self)]\<rparr>)"
proof -
  define S where "S = nat (steps_per_period self)"
  define n where "n = shape0 (df self)"
  define idx where "idx = map (\<lambda>i. int i * int S) [0..<n]"
  define new where "new = range_int (int ((n - 1) * S) + 1)"
  have S: "0 < S" and steps: "steps_per_period self = int S"
    using s by (simp_all add: S_def)
  have n: "0 < n" using r by (simp add: n_def)
  have mx: "index_max idx = Inr (int ((n - 1) * S))"
    unfolding idx_def using n S by (rule index_max_scaled)
  have dist: "distinct idx"
    unfolding idx_def using S by (rule distinct_scaled)
  have new_eq: "new = map int [0..<n_frames self]"
    unfolding new_def range_int_Suc by (simp add: n_frames_def n_def S_def)
  have col: "interpolate_column (reindex_column idx new (map Some xs)) = stretched S xs"
    if "length xs = n" for xs
  proof -
    have "xs \<noteq> []" using that n by auto
    from interpolate_stretched [OF S this] show ?thesis
      unfolding idx_def new_def that .
  qed
  have col': "interpolate_column (reindex_column idx new (map (\<lambda>i. Some (f i)) [0..<n]))
                = stretched S (map f [0..<n])" for f
    using col [of "map f [0..<n]"] by (simp add: comp_def)
  have ranks: "rank_columns self =
      Inr (map (\<lambda>j. (fst (columns (df self) ! j), map Some (map (\<lambda>i. row_rank self i j) [0..<n])))
             [0..<shape1 (df self)])"
    unfolding n_def using num by (rule rank_columns_closed)
  have vals: "reindex \<lparr>frame_index = idx,
                frame_columns = map (\<lambda>c. (fst c, map Some (number_values (snd c))))
                                  (columns (df self))\<rparr> new
      = Inr \<lparr>frame_index = new,
             frame_columns = map (\<lambda>c. (fst c, reindex_column idx new (map Some (number_values (snd c)))))
                               (columns (df self))\<rparr>"
    using dist by (simp add: reindex_def comp_def)
  have rks: "reindex \<lparr>frame_index = idx,
                frame_columns = map (\<lambda>j. (fst (columns (df self) ! j),
                                           map Some (map (\<lambda>i. row_rank self i j) [0..<n])))
                                  [0..<shape1 (df self)]\<rparr> new
      = Inr \<lparr>frame_index = new,
             frame_columns = map (\<lambda>j. (fst (columns (df self) ! j),
                                        reindex_column idx new
                                          (map Some (map (\<lambda>i. row_rank self i j) [0..<n]))))
                               [0..<shape1 (df self)]\<rparr>"
    using dist by (simp add: reindex_def comp_def)
  have ivals: "interpolate \<lparr>frame_index = new,
             frame_columns = map (\<lambda>c. (fst c, reindex_column idx new (map Some (number_values (snd c)))))
                               (columns (df self))\<rparr>
      = \<lparr>frame_index = new,
         frame_columns = map (\<lambda>c. (fst c, stretched S (number_values (snd c)))) (columns (df self))\<rparr>"
  proof -
    have "length (number_values (snd c)) = n" if "c \<in> set (columns (df self))" for c
      unfolding n_def using wf num that by (rule length_number_values)
    then show ?thesis by (simp add: interpolate_def comp_def col)
  qed
  have irks: "interpolate \<lparr>frame_index = new,
             frame_columns = map (\<lambda>j. (fst (columns (df self) ! j),
                                        reindex_column idx new
                                          (map Some (map (\<lambda>i. row_rank self i j) [0..<n]))))
                               [0..<shape1 (df self)]\<rparr>
      = \<lparr>frame_index = new,
         frame_columns = map (\<lambda>j. (fst (columns (df self) ! j),
                                    stretched S (map (\<lambda>i. row_rank self i j) [0..<n])))
                           [0..<shape1 (df self)]\<rparr>"
    by (simp add: interpolate_def comp_def col')
  have "prepare_data self =
     Inr (\<lparr>frame_index = new,
            frame_columns = map (\<lambda>c. (fst c, stretched S (number_values (snd c)))) (columns (df self))\<rparr>,
          \<lparr>frame_index = new,
            frame_columns = map (\<lambda>j. (fst (columns (df self) ! j),
                                       stretched S (map (\<lambda>i. row_rank self i j) [0..<n])))
                              [0..<shape1 (df self)]\<rparr>)"
    unfolding prepare_data_def Let_def ranks steps n_def [symmetric] idx_def [symmetric]
    by (simp only: mx sum.case new_def [symmetric] vals rks ivals irks)
  then show ?thesis unfolding new_eq S_def n_def .
qed




section \<open>The value frame\<close>



section \<open>The rank frame\<close>




lemma rank_first_desc_ge_1: "1 \<le> rank_first_desc row j"
  by (simp add: rank_first_desc_def)

lemma naive_rank_bounds:
  assumes "0 \<le> n_bars self"
  shows "1 \<le> naive_rank self i j \<and> naive_rank self i j \<le> of_int (n_bars self + 1)"
  using assms rank_first_desc_ge_1 [of "table_row (columns (df self)) i" j]
  by (simp add: naive_rank_def)

lemma row_rank_bounds:
  assumes "0 \<le> n_bars self"
  shows "(if inverted self then 0 else 1) \<le> row_rank self i j
       \<and> row_rank self i j \<le> (if inverted self then of_int (n_bars self) else of_int (n_bars self + 1))"
  using naive_rank_bounds [OF assms, of i j] by (simp add: row_rank_def)







section \<open>Construction\<close>

lemma two_rows_object_built: "attrs_post_init two_rows_chart = Inr two_rows_object"
  by code_simp

lemma frame_index_interpolate: "frame_index (interpolate fr) = frame_index fr"
  by (simp add: interpolate_def)

lemma reindex_frame_index: "reindex fr new = Inr fr' \<Longrightarrow> frame_index fr' = new"
  by (auto simp: reindex_def split: if_splits)

lemma index_max_nonempty: "index_max xs = Inr mx \<Longrightarrow> xs \<noteq> []"
  by (cases xs) simp_all

lemma prepare_data_index:
  assumes "prepare_data self = Inr (vf, rf)" and "0 < steps_per_period self"
  shows "0 < shape0 (df self) \<and> frame_index vf = map int [0..<n_frames self]
         \<and> frame_index rf = map int [0..<n_frames self]"
proof -
  define S where "S = nat (steps_per_period self)"
  define n where "n = shape0 (df self)"
  define idx where "idx = map (\<lambda>i. int i * int S) [0..<n]"
  have S: "0 < S" and steps: "steps_per_period self = int S"
    using assms(2) by (simp_all add: S_def)
  from assms(1) obtain ranks mx vals rks where
      mx: "index_max idx = Inr mx"
      and v: "reindex \<lparr>frame_index = idx,
                 frame_columns = map (\<lambda>c. (fst c, map Some (number_values (snd c))))
                                   (columns (df self))\<rparr> (range_int (mx + 1)) = Inr vals"
      and k: "reindex \<lparr>frame_index = idx, frame_columns = ranks\<rparr> (range_int (mx + 1)) = Inr rks"
      and vf: "vf = interpolate vals" and rf: "rf = interpolate rks"
    unfolding prepare_data_def Let_def steps n_def [symmetric] idx_def [symmetric]
    by (auto split: sum.splits)
  from index_max_nonempty [OF mx] have n: "0 < n" by (simp add: idx_def)
  from index_max_scaled [OF n S] mx have "mx = int ((n - 1) * S)"
    unfolding idx_def by simp
  then have "range_int (mx + 1) = map int [0..<Suc ((n - 1) * S)]"
    by (simp only: range_int_Suc)
  then have new: "range_int (mx + 1) = map int [0..<n_frames self]"
    by (simp only: n_frames_def n_def S_def Suc_eq_plus1)
  from reindex_frame_index [OF v] reindex_frame_index [OF k] n show ?thesis
    unfolding vf rf frame_index_interpolate new n_def by simp
qed

lemma attrs_post_init_fields:
  assumes "attrs_post_init c = Inr self"
  shows "prepare_data (c\<lparr>n_bars := (if n_bars c = 0 then int (shape1 (df c)) else n_bars c)\<rparr>)
           = Inr (df_values self, df_rank self)
       \<and> get_colors c (cmap c) = Inr (bar_colors self)
       \<and> orig_index self = index (df c) \<and> df self = df c
       \<and> steps_per_period self = steps_per_period c \<and> use_index self = use_index c
       \<and> n_bars self = (if n_bars c = 0 then int (shape1 (df c)) else n_bars c)
       \<and> orientation self = orientation c \<and> sort_param self = sort_param c
       \<and> label_bars self = label_bars c"
  using assms
  by (auto simp: attrs_post_init_def Let_def get_colors_def BarChart.defs BarChart_object.defs
      split: sum.splits if_splits prod.splits)

text \<open>
  Claim C10. For a chart the constructor has built from a table with \<open>s > 0\<close> steps per
  period, the table has \<open>r \<ge> 1\<close> rows, \<^verbatim>\<open>get_frames\<close> gives the frames
  \<open>0, ..., (r-1)*s\<close>, and for each of them the index \<^verbatim>\<open>i // steps_per_period\<close> that
  \<^verbatim>\<open>plot_bars\<close> looks the period label up with is at least 0 and less than \<open>r\<close>: the lookup
  returns the label of original row \<open>i div s\<close> and never raises IndexError.
\<close>

theorem period_label_lookup_in_bounds:
  assumes "attrs_post_init c = Inr self" and "0 < steps_per_period c"
  shows "0 < shape0 (df c)
       \<and> get_frames self = [0..<(shape0 (df c) - 1) * nat (steps_per_period c) + 1]
       \<and> length (orig_index self) = shape0 (df c)
       \<and> (\<forall>i \<in> set (get_frames self).
             0 \<le> int i div steps_per_period self
           \<and> int i div steps_per_period self < int (shape0 (df c))
           \<and> getitem (orig_index self) (int i div steps_per_period self)
               = Inr (index (df c) ! (i div nat (steps_per_period c))))"
proof -
  let ?c = "c\<lparr>n_bars := (if n_bars c = 0 then int (shape1 (df c)) else n_bars c)\<rparr>"
  let ?s = "nat (steps_per_period c)"
  let ?r = "shape0 (df c)"
  from attrs_post_init_fields [OF assms(1)]
  have prep: "prepare_data ?c = Inr (df_values self, df_rank self)"
    and orig: "orig_index self = index (df c)"
    and steps: "steps_per_period self = steps_per_period c"
    by simp_all
  have "0 < steps_per_period ?c" using assms(2) by simp
  from prepare_data_index [OF prep this]
  have r: "0 < ?r" and idx: "frame_index (df_values self) = map int [0..<n_frames ?c]"
    by simp_all
  have frames: "get_frames self = [0..<(?r - 1) * ?s + 1]"
    by (simp add: get_frames_def len_def idx n_frames_def)
  have len: "length (orig_index self) = ?r"
    by (simp add: orig shape0_def)
  have s: "0 < ?s" and si: "steps_per_period c = int ?s" using assms(2) by simp_all
  have look: "0 \<le> int i div steps_per_period self
           \<and> int i div steps_per_period self < int ?r
           \<and> getitem (orig_index self) (int i div steps_per_period self)
               = Inr (index (df c) ! (i div ?s))"
    if "i \<in> set (get_frames self)" for i
  proof -
    from that have "i \<le> (?r - 1) * ?s" unfolding frames by auto
    then have "i div ?s \<le> ?r - 1" using s
      by (metis div_le_mono nonzero_mult_div_cancel_right less_numeral_extra(3))
    then have lt: "i div ?s < ?r" using r by simp
    have d: "int i div steps_per_period self = int (i div ?s)"
      unfolding steps by (subst si) (simp only: zdiv_int)
    show ?thesis unfolding d using lt
      by (simp add: getitem_def Let_def orig shape0_def)
  qed
  from r frames len look show ?thesis by blast
qed

theorem period_label_lookup_in_bounds_witness:
  "attrs_post_init two_rows_chart = Inr two_rows_object
   \<and> 0 < steps_per_period two_rows_chart
   \<and> get_frames two_rows_object = [0, 1, 2]
   \<and> getitem (orig_index two_rows_object) (int 2 div steps_per_period two_rows_object)
       = Inr ''2021''"
proof -
  have s: "0 < steps_per_period two_rows_chart" by (simp add: two_rows_chart_def)
  have r: "shape0 (df two_rows_chart) = 2" and n: "nat (steps_per_period two_rows_chart) = 2"
    and l: "index (df two_rows_chart) ! (2 div 2) = ''2021''"
    by (simp_all add: two_rows_chart_def two_rows_def shape0_def)
  from period_label_lookup_in_bounds [OF two_rows_object_built s]
  have f: "get_frames two_rows_object = [0..<(2 - 1) * 2 + 1]"
    and b: "\<forall>i \<in> set (get_frames two_rows_object).
             0 \<le> int i div steps_per_period two_rows_object
           \<and> int i div steps_per_period two_rows_object < int 2
           \<and> getitem (orig_index two_rows_object) (int i div steps_per_period two_rows_object)
               = Inr (index (df two_rows_chart) ! (i div 2))"
    unfolding r n by simp_all
  from f have frames: "get_frames two_rows_object = [0, 1, 2]" by (simp add: upt_rec)
  then have "2 \<in> set (get_frames two_rows_object)" by simp
  from b [rule_format, OF this] l
  have "getitem (orig_index two_rows_object) (int 2 div steps_per_period two_rows_object)
          = Inr ''2021''"
    by simp
  with two_rows_object_built s frames show ?thesis by simp
qed

section \<open>The bars of a frame\<close>

lemma boolean_mask_snoc:
  "length bs = length xs \<Longrightarrow> boolean_mask (bs @ [b]) (xs @ [x]) = boolean_mask bs xs @ (if b then [x] else [])"
  by (simp add: boolean_mask_def)

lemma boolean_mask_nth:
  "length bs = length xs \<Longrightarrow>
     boolean_mask bs xs = map (\<lambda>j. xs ! j) (filter (\<lambda>j. bs ! j) [0..<length xs])"
proof (induction xs arbitrary: bs rule: rev_induct)
  case Nil
  then show ?case by (simp add: boolean_mask_def)
next
  case (snoc x xs)
  then obtain bs' b where bs: "bs = bs' @ [b]" and len: "length bs' = length xs"
    by (cases bs rule: rev_cases) auto
  have "map (\<lambda>j. (xs @ [x]) ! j) (filter (\<lambda>j. (bs' @ [b]) ! j) [0..<length xs])
        = map (\<lambda>j. xs ! j) (filter (\<lambda>j. bs' ! j) [0..<length xs])"
    using len by (intro map_cong filter_cong) (auto simp: nth_append)
  then show ?case
    using snoc.IH [OF len] len by (simp add: bs boolean_mask_snoc nth_append)
qed


lemma length_boolean_mask:
  "length bs = length xs \<Longrightarrow> length (boolean_mask bs xs) = length (filter (\<lambda>j. bs ! j) [0..<length xs])"
  by (simp add: boolean_mask_nth)

lemma frame_bars_selected:
  assumes w: "length (frame_columns (df_values self)) = length (frame_columns (df_rank self))"
      "shape1 (df self) = length (frame_columns (df_rank self))"
      "length (bar_colors self) = length (frame_columns (df_rank self))"
  shows "frame_bars self i =
     map (\<lambda>j. \<lparr>location = the (snd (frame_columns (df_rank self) ! j) ! i),
                bar_length = snd (frame_columns (df_values self) ! j) ! i,
                tick_label = fst (columns (df self) ! j),
                bar_color = bar_colors self ! j\<rparr>)
       (filter (\<lambda>j. case snd (frame_columns (df_rank self) ! j) ! i of
                      None \<Rightarrow> False
                    | Some x \<Rightarrow> 0 < x \<and> x < of_int (n_bars self + 1))
          [0..<shape1 (df self)])"
proof -
  let ?m = "length (frame_columns (df_rank self))"
  let ?filt = "top_filt self i"
  let ?sel = "filter (\<lambda>j. ?filt ! j) [0..<?m]"
  have lf: "length ?filt = ?m" by (simp add: top_filt_def iloc_values_def)
  have m1: "boolean_mask ?filt (iloc_values (df_rank self) i)
            = map (\<lambda>j. snd (frame_columns (df_rank self) ! j) ! i) ?sel"
    using boolean_mask_nth [of ?filt "iloc_values (df_rank self) i"] lf
    by (simp add: iloc_values_def cong: map_cong)
  have m2: "boolean_mask ?filt (iloc_values (df_values self) i)
            = map (\<lambda>j. snd (frame_columns (df_values self) ! j) ! i) ?sel"
    using boolean_mask_nth [of ?filt "iloc_values (df_values self) i"] lf w(1)
    by (simp add: iloc_values_def cong: map_cong)
  have m3: "boolean_mask ?filt (map fst (columns (df self)))
            = map (\<lambda>j. fst (columns (df self) ! j)) ?sel"
    using boolean_mask_nth [of ?filt "map fst (columns (df self))"] lf w(2)
    by (simp add: shape1_def cong: map_cong)
  have m4: "boolean_mask ?filt (bar_colors self) = map (\<lambda>j. bar_colors self ! j) ?sel"
    using boolean_mask_nth [of ?filt "bar_colors self"] lf w(3) by simp
  have sel: "?sel = filter (\<lambda>j. case snd (frame_columns (df_rank self) ! j) ! i of
                                  None \<Rightarrow> False
                                | Some x \<Rightarrow> 0 < x \<and> x < of_int (n_bars self + 1))
                      [0..<shape1 (df self)]"
    unfolding w(2) by (rule filter_cong) (simp_all add: top_filt_def iloc_values_def)
  have zips: "zip (map f1 xs) (zip (map f2 xs) (zip (map f3 xs) (map f4 xs)))
              = map (\<lambda>j. (f1 j, f2 j, f3 j, f4 j)) xs" for f1 :: "nat \<Rightarrow> 'b" and f2 :: "nat \<Rightarrow> 'c"
      and f3 :: "nat \<Rightarrow> 'd" and f4 :: "nat \<Rightarrow> 'e" and xs
    by (induction xs) simp_all
  show ?thesis
    unfolding frame_bars_def Let_def m1 m2 m3 m4 sel [symmetric]
    by (simp add: zips comp_def)
qed

text \<open>
  Claim C5. When \<^verbatim>\<open>plot_bars\<close> draws frame \<open>i\<close>, the bars it adds to the axes are those of
  exactly the columns whose rank at row \<open>i\<close> of the rank frame lies strictly between 0 and
  \<^verbatim>\<open>n_bars + 1\<close>, in column order, each at its rank, with its value as length, its name
  as tick label and its color; no other column gets a bar.
\<close>

theorem plot_bars_draws_selected:
  assumes "plot_bars self i ax = Inr ax'"
  shows "containers ax' = containers ax @
     [map (\<lambda>j. \<lparr>location = the (snd (frame_columns (df_rank self) ! j) ! i),
                 bar_length = snd (frame_columns (df_values self) ! j) ! i,
                 tick_label = fst (columns (df self) ! j),
                 bar_color = bar_colors self ! j\<rparr>)
        (filter (\<lambda>j. case snd (frame_columns (df_rank self) ! j) ! i of
                       None \<Rightarrow> False
                     | Some x \<Rightarrow> 0 < x \<and> x < of_int (n_bars self + 1))
           [0..<shape1 (df self)])]"
proof -
  from assms have w: "length (frame_columns (df_values self)) = length (frame_columns (df_rank self))"
      "shape1 (df self) = length (frame_columns (df_rank self))"
      "length (bar_colors self) = length (frame_columns (df_rank self))"
    by (auto simp: plot_bars_def split: if_splits)
  from assms have "containers ax' = containers ax @ [frame_bars self i]"
    by (auto simp: plot_bars_def Let_def split: if_splits sum.splits)
  then show ?thesis unfolding frame_bars_selected [OF w] .
qed

theorem plot_bars_draws_selected_witness:
  "\<exists>ax'. plot_bars two_rows_object 0 new_axes = Inr ax'
     \<and> map tick_label (last (containers ax')) = [''b'', ''c'']
     \<and> map location (last (containers ax')) = [2, 1]"
proof -
  define ax' where "ax' =
     \<lparr>containers =
        [[\<lparr>location = 2, bar_length = Some 4, tick_label = ''b'', bar_color = Hex ''c1''\<rparr>,
          \<lparr>location = 1, bar_length = Some 4, tick_label = ''c'', bar_color = Hex ''c0''\<rparr>]],
      value_lim = Some (22 / 5),
      texts = [PeriodLabel ''2020'', BarLabel (Some 4), BarLabel (Some 4)]\<rparr>"
  have ev: "plot_bars two_rows_object 0 new_axes = Inr ax'"
    unfolding ax'_def by code_simp
  have sel: "filter (\<lambda>j. case snd (frame_columns (df_rank two_rows_object) ! j) ! 0 of
                          None \<Rightarrow> False
                        | Some x \<Rightarrow> 0 < x \<and> x < of_int (n_bars two_rows_object + 1))
               [0..<shape1 (df two_rows_object)] = [1, 2]"
    by code_simp
  have names: "fst (columns (df two_rows_object) ! Suc 0) = ''b''"
      "fst (columns (df two_rows_object) ! 2) = ''c''"
    and ranks: "the (snd (frame_columns (df_rank two_rows_object) ! Suc 0) ! 0) = 2"
      "the (snd (frame_columns (df_rank two_rows_object) ! 2) ! 0) = 1"
    by (simp_all add: two_rows_object_def two_rows_def)
  from plot_bars_draws_selected [OF ev]
  have "map tick_label (last (containers ax')) = [''b'', ''c'']"
    and "map location (last (containers ax')) = [2, 1]"
    unfolding sel by (simp_all add: names ranks)
  with ev show ?thesis by (intro exI [of _ ax']) simp
qed

section \<open>Every frame of a chart can be drawn\<close>

lemma first_maximum_rank:
  assumes "row \<noteq> []"
  shows "\<exists>j < length row. rank_first_desc row j = 1"
proof -
  define M where "M = Max (set row)"
  have "M \<in> set row" unfolding M_def using assms by (intro Max_in) simp_all
  then have ex: "\<exists>j. j < length row \<and> row ! j = M" by (auto simp: in_set_conv_nth)
  define j where "j = (LEAST j. j < length row \<and> row ! j = M)"
  have j: "j < length row" "row ! j = M"
    unfolding j_def using LeastI_ex [OF ex] by simp_all
  have before: "row ! i \<noteq> M" if "i < j" for i
  proof
    assume "row ! i = M"
    moreover have "i < length row" using that j by simp
    ultimately have "j \<le> i" unfolding j_def by (intro Least_le) simp
    with that show False by simp
  qed
  have "filter (\<lambda>x. x > row ! j) row = []"
    unfolding j(2) M_def by (auto simp: filter_empty_conv not_less)
  moreover have "filter (\<lambda>x. x = row ! j) (take j row) = []"
    unfolding j(2) using before j by (auto simp: filter_empty_conv in_set_conv_nth)
  ultimately have "rank_first_desc row j = 1" by (simp add: rank_first_desc_def)
  with j show ?thesis by blast
qed

lemma lerp_strictly_inside:
  fixes a b lo hi q :: rat
  assumes "lo < a" and "a < hi" and "lo \<le> b" and "b \<le> hi" and "0 \<le> q" and "q < 1"
  shows "lo < a + (b - a) * q \<and> a + (b - a) * q < hi"
proof -
  have eq: "a + (b - a) * q = (1 - q) * a + q * b" by (simp add: algebra_simps)
  have p: "0 < 1 - q" using assms by simp
  have "(1 - q) * lo < (1 - q) * a" using p assms(1) by (simp add: mult_strict_left_mono)
  moreover have "q * lo \<le> q * b" using assms by (intro mult_left_mono) simp_all
  ultimately have "(1 - q) * lo + q * lo < (1 - q) * a + q * b" by (rule add_less_le_mono)
  then have lower: "lo < (1 - q) * a + q * b" by (simp add: algebra_simps)
  have "(1 - q) * a < (1 - q) * hi" using p assms(2) by (simp add: mult_strict_left_mono)
  moreover have "q * b \<le> q * hi" using assms by (intro mult_left_mono) simp_all
  ultimately have "(1 - q) * a + q * b < (1 - q) * hi + q * hi" by (rule add_less_le_mono)
  then have "(1 - q) * a + q * b < hi" by (simp add: algebra_simps)
  with lower show ?thesis unfolding eq by simp
qed


lemma lerp_inside:
  fixes lo hi :: rat
  assumes s: "0 < s" and p: "p \<le> (length xs - 1) * s" and ne: "xs \<noteq> []"
    and a: "lo < xs ! (p div s)" "xs ! (p div s) < hi"
    and b: "\<And>i. i < length xs \<Longrightarrow> lo \<le> xs ! i \<and> xs ! i \<le> hi"
  shows "lo < lerp xs s p \<and> lerp xs s p < hi"
proof (cases "p mod s = 0")
  case True
  with a show ?thesis by (simp add: lerp_def)
next
  case False
  define k where "k = p div s"
  define q :: rat where "q = of_nat (p mod s) / of_nat s"
  have pk: "p = k * s + p mod s" by (simp add: k_def)
  have "k < length xs - 1"
  proof (rule ccontr)
    assume "\<not> k < length xs - 1"
    then have "(length xs - 1) * s \<le> k * s" by simp
    with pk p False show False by simp
  qed
  then have k: "k + 1 < length xs" by simp
  have q: "0 \<le> q" "q < 1" using s by (simp_all add: q_def)
  from lerp_strictly_inside [OF a [folded k_def] b [OF k, THEN conjunct1] b [OF k, THEN conjunct2] q]
  show ?thesis using False
    by (simp add: lerp_def k_def [symmetric] q_def [symmetric])
qed

lemma get_colors_length:
  assumes "get_colors self cm = Inr cs"
  shows "length cs = shape1 (df self)"
proof -
  from assms obtain bc where bc: "BaseChart_get_colors cm = Inr bc"
    by (auto simp: get_colors_def split: sum.splits)
  show ?thesis
  proof (cases "shape1 (df self) > length bc")
    case True
    with assms bc have n: "length bc \<noteq> 0"
      and cs: "cs = take (shape1 (df self)) (concat (replicate (shape1 (df self) div length bc + 1) bc))"
      by (auto simp: get_colors_def Let_def split: if_splits)
    have "shape1 (df self) \<le> (shape1 (df self) div length bc + 1) * length bc"
      using n by (metis Suc_eq_plus1 dividend_less_div_times less_imp_le_nat mult.commute
          mult_Suc_right neq0_conv)
    then show ?thesis unfolding cs by (simp add: length_concat_replicate)
  next
    case False
    with assms bc show ?thesis by (auto simp: get_colors_def Let_def)
  qed
qed

lemma label_lookup:
  assumes "0 < s" and "0 < length xs" and "i \<le> (length xs - 1) * s"
  shows "getitem xs (int i div int s) = Inr (xs ! (i div s))"
proof -
  have "i div s \<le> length xs - 1" using assms(1,3)
    by (metis div_le_mono nonzero_mult_div_cancel_right less_numeral_extra(3))
  then have "i div s < length xs" using assms(2) by (cases xs) simp_all
  moreover have "int i div int s = int (i div s)" by (simp only: zdiv_int)
  ultimately show ?thesis by (simp add: getitem_def Let_def)
qed

lemma array_max_nonempty: "xs \<noteq> [] \<Longrightarrow> \<exists>mx. array_max xs = Inr mx"
  by (cases xs) simp_all

lemma plot_bars_returns:
  assumes init: "attrs_post_init c = Inr self"
    and wf: "wf_table (df c)" and num: "numeric_table (df c)"
    and s: "0 < steps_per_period c" and nb: "0 \<le> n_bars c" and m: "0 < shape1 (df c)"
    and i: "i \<in> set (get_frames self)"
  shows "\<exists>ax'. plot_bars self i ax = Inr ax'"
proof -
  define N where "N = (if n_bars c = 0 then int (shape1 (df c)) else n_bars c)"
  define c' where "c' = c\<lparr>n_bars := N\<rparr>"
  let ?s = "nat (steps_per_period c)"
  let ?r = "shape0 (df c)"
  let ?m = "shape1 (df c)"
  have N: "1 \<le> N" using nb m by (simp add: N_def)
  from attrs_post_init_fields [OF init]
  have prep: "prepare_data c' = Inr (df_values self, df_rank self)"
    and cols: "get_colors c (cmap c) = Inr (bar_colors self)"
    and orig: "orig_index self = index (df c)" and dfs: "df self = df c"
    and steps: "steps_per_period self = steps_per_period c"
    and nself: "n_bars self = N" and ori: "orientation self = orientation c"
    by (simp_all add: c'_def N_def)
  have s': "0 < steps_per_period c'" and wf': "wf_table (df c')" and num': "numeric_table (df c')"
    using s wf num by (simp_all add: c'_def)
  from prepare_data_index [OF prep s']
  have r: "0 < ?r" and idx: "frame_index (df_values self) = map int [0..<n_frames c']"
    and idr: "frame_index (df_rank self) = map int [0..<n_frames c']"
    by (simp_all add: c'_def)
  have r': "0 < shape0 (df c')" using r by (simp add: c'_def)
  from prepare_data_closed [OF wf' num' r' s'] prep
  have "df_values self
        = \<lparr>frame_index = map int [0..<n_frames c'],
           frame_columns = map (\<lambda>c. (fst c, stretched (nat (steps_per_period c'))
                                             (number_values (snd c))))
                             (columns (df c'))\<rparr>"
    and "df_rank self
        = \<lparr>frame_index = map int [0..<n_frames c'],
           frame_columns = map (\<lambda>j. (fst (columns (df c') ! j),
                                      stretched (nat (steps_per_period c'))
                                        (map (\<lambda>i. row_rank c' i j) [0..<shape0 (df c')])))
                             [0..<shape1 (df c')]\<rparr>"
    by simp_all
  then have vals: "frame_columns (df_values self)
              = map (\<lambda>c. (fst c, stretched ?s (number_values (snd c)))) (columns (df c))"
    and rks: "frame_columns (df_rank self)
              = map (\<lambda>j. (fst (columns (df c) ! j),
                           stretched ?s (map (\<lambda>k. row_rank c' k j) [0..<?r])))
                  [0..<?m]"
    by (simp_all add: c'_def)
  have nf: "n_frames c' = (?r - 1) * ?s + 1" by (simp add: n_frames_def c'_def)
  have il: "i \<le> (?r - 1) * ?s" using i by (auto simp: get_frames_def len_def idx nf)
  have in_range: "i < len (df_rank self) \<and> i < len (df_values self)"
    using il by (simp add: len_def idx idr nf)
  have widths: "length (frame_columns (df_values self)) = length (frame_columns (df_rank self))
      \<and> shape1 (df self) = length (frame_columns (df_rank self))
      \<and> length (bar_colors self) = length (frame_columns (df_rank self))"
    using get_colors_length [OF cols] by (simp add: vals rks dfs shape1_def)
  have sp: "0 < ?s" using s by simp
  \<comment> \<open>the column that leads row \<open>i div s\<close> is drawn\<close>
  define k where "k = i div ?s"
  have "table_row (columns (df c)) k \<noteq> []" using m by (simp add: table_row_def shape1_def)
  from first_maximum_rank [OF this] obtain j where
      j: "j < ?m" and top: "rank_first_desc (table_row (columns (df c)) k) j = 1"
    by (auto simp: table_row_def shape1_def)
  let ?xs = "map (\<lambda>k. row_rank c' k j) [0..<?r]"
  have lenxs: "length ?xs = ?r" by simp
  have kr: "k < ?r"
  proof -
    have "k \<le> ?r - 1" unfolding k_def using sp il
      by (metis div_le_mono nonzero_mult_div_cancel_right less_numeral_extra(3))
    then show ?thesis using r by simp
  qed
  have nbc': "n_bars c' = N" "0 \<le> n_bars c'" using N by (simp_all add: c'_def)
  have "naive_rank c' k j = 1" using top N by (simp add: naive_rank_def c'_def)
  then have a: "row_rank c' k j = (if inverted c' then of_int N else 1)"
    by (simp add: row_rank_def nbc')
  have a_in: "0 < ?xs ! (i div ?s)" "?xs ! (i div ?s) < of_int (N + 1)"
    using kr N a by (simp_all add: k_def [symmetric])
  have b_in: "0 \<le> ?xs ! q \<and> ?xs ! q \<le> of_int (N + 1)" if "q < length ?xs" for q
    using that row_rank_bounds [OF nbc'(2), of q j] N
    by (cases "inverted c'") (simp_all add: nbc')
  have "i \<le> (length ?xs - 1) * ?s" using il by simp
  from lerp_inside [OF sp this _ a_in b_in] r
  have inside: "0 < lerp ?xs ?s i \<and> lerp ?xs ?s i < of_int (N + 1)" by simp
  have cell: "snd (frame_columns (df_rank self) ! j) ! i = Some (lerp ?xs ?s i)"
    using j il by (simp add: rks stretched_def del: upt_Suc)
  have "j \<in> set (filter (\<lambda>j. case snd (frame_columns (df_rank self) ! j) ! i of
                                None \<Rightarrow> False
                              | Some x \<Rightarrow> 0 < x \<and> x < of_int (n_bars self + 1))
                     [0..<shape1 (df self)])"
    using j inside by (simp add: cell nself dfs)
  then have "filter (\<lambda>j. case snd (frame_columns (df_rank self) ! j) ! i of
                                None \<Rightarrow> False
                              | Some x \<Rightarrow> 0 < x \<and> x < of_int (n_bars self + 1))
                     [0..<shape1 (df self)] \<noteq> []"
    by (metis empty_iff empty_set)
  then have "frame_bars self i \<noteq> []"
    using widths by (simp add: frame_bars_selected)
  then have "map bar_length (frame_bars self i) \<noteq> []" by simp
  from array_max_nonempty [OF this] obtain mx where
      mx: "array_max (map bar_length (frame_bars self i)) = Inr mx" ..
  have look: "getitem (orig_index self) (int i div steps_per_period self)
              = Inr (orig_index self ! (i div ?s))"
  proof -
    have "0 < length (orig_index self)" "i \<le> (length (orig_index self) - 1) * ?s"
      using r il by (simp_all add: orig shape0_def)
    from label_lookup [OF sp this] s show ?thesis by (simp add: steps)
  qed
  have nz: "steps_per_period self \<noteq> 0" using s by (simp add: steps)
  show ?thesis
    using in_range widths mx look nz
    by (simp add: plot_bars_def Let_def)
qed

section \<open>The frames of a joint animation\<close>

lemma py_max_Max: "xs \<noteq> [] \<Longrightarrow> py_max xs = Inr (Max (set xs))"
  by (cases xs) (simp_all add: Max.set_eq_fold del: set_simps)

lemma py_min_Min: "xs \<noteq> [] \<Longrightarrow> py_min xs = Inr (Min (set xs))"
  by (cases xs) (simp_all add: Min.set_eq_fold del: set_simps)

lemma py_max_get_frames:
  assumes "0 < len (df_values plot)"
  shows "py_max (get_frames plot) = Inr (len (df_values plot) - 1)"
proof -
  let ?n = "len (df_values plot)"
  have ne: "[0..<?n] \<noteq> []" using assms by simp
  have "Max (set [0..<?n]) = ?n - 1"
    using assms by (intro Max_eqI) auto
  with py_max_Max [OF ne] show ?thesis by (simp add: get_frames_def)
qed

lemma collect_map_Inr:
  "(\<And>x. x \<in> set xs \<Longrightarrow> f x = Inr (g x)) \<Longrightarrow> collect (map f xs) = Inr (map g xs)"
  by (induction xs) simp_all

lemma frames_argument_least:
  assumes ne: "plots \<noteq> []" and pos: "\<And>p. p \<in> set plots \<Longrightarrow> 0 < len (df_values p)"
  shows "frames_argument plots = Inr (Min (set (map (\<lambda>p. len (df_values p)) plots)) - 1)"
proof -
  let ?lens = "map (\<lambda>p. len (df_values p)) plots"
  have c: "collect (map (\<lambda>p. py_max (get_frames p)) plots)
           = Inr (map (\<lambda>p. len (df_values p) - 1) plots)"
    by (rule collect_map_Inr) (simp add: py_max_get_frames pos)
  have m: "py_min (map (\<lambda>p. len (df_values p) - 1) plots)
           = Inr (Min (set (map (\<lambda>p. len (df_values p) - 1) plots)))"
    using ne by (intro py_min_Min) simp
  have "mono (\<lambda>n::nat. n - 1)" by (rule monoI) simp
  from mono_Min_commute [OF this, of "set ?lens"] ne
  have "Min (set ?lens) - 1 = Min ((\<lambda>n. n - 1) ` set ?lens)" by simp
  also have "(\<lambda>n. n - 1) ` set ?lens = set (map (\<lambda>p. len (df_values p) - 1) plots)"
    by (simp add: image_image)
  finally have e: "Min (set (map (\<lambda>p. len (df_values p) - 1) plots)) = Min (set ?lens) - 1"
    by simp
  have "frames_argument plots = py_min (map (\<lambda>p. len (df_values p) - 1) plots)"
    by (simp add: frames_argument_def c)
  also note m
  finally show ?thesis unfolding e .
qed

lemma plot_bars_in_range: "plot_bars self i ax = Inr ax' \<Longrightarrow> i < len (df_values self)"
  by (auto simp: plot_bars_def split: if_splits)

lemma collect_Inr_nth:
  "collect xs = Inr ys \<Longrightarrow> length ys = length xs \<and> (\<forall>i < length xs. xs ! i = Inr (ys ! i))"
proof (induction xs arbitrary: ys rule: collect.induct)
  case 1
  then show ?case by simp
next
  case (2 e rest)
  then show ?case by simp
next
  case (3 x rest)
  then obtain zs where zs: "collect rest = Inr zs" and ys: "ys = x # zs"
    by (auto split: sum.splits)
  from "3.IH" [OF zs] ys show ?case by (auto simp: nth_Cons')
qed

lemma animate_multiple_plots_frames:
  assumes "animate_multiple_plots plots = Inr (frames, axs)"
  shows "frames = [0..<Min (set (map (\<lambda>p. len (df_values p)) plots)) - 1]"
proof -
  from assms obtain axs0 n where
      ne: "plots \<noteq> []"
      and init: "collect (map (\<lambda>plot. init_func plot new_axes) plots) = Inr axs0"
      and n: "frames_argument plots = Inr n"
      and fr: "frames = FuncAnimation_frames n"
    by (auto simp: animate_multiple_plots_def split: if_splits sum.splits)
  have pos: "0 < len (df_values p)" if "p \<in> set plots" for p
  proof -
    from that obtain i where i: "i < length plots" "plots ! i = p"
      by (auto simp: in_set_conv_nth)
    from collect_Inr_nth [OF init] i have "init_func p new_axes = Inr (axs0 ! i)" by auto
    then show ?thesis unfolding init_func_def by (rule plot_bars_in_range)
  qed
  from frames_argument_least [OF ne pos] n fr show ?thesis
    by (simp add: FuncAnimation_frames_def)
qed

section \<open>Where the code parts from the claims\<close>

text \<open>
  Claim C2 says that \<^verbatim>\<open>animate_multiple_plots\<close> drives as many frames as the shortest
  chart has, ten for charts of ten and fifteen frames. The code hands
  \<^verbatim>\<open>min([max(plot.get_frames()) for plot in plots])\<close> to \<^verbatim>\<open>FuncAnimation\<close>: the least of
  the charts' last frame numbers, here 9, which \<^verbatim>\<open>FuncAnimation\<close> reads as a number of
  frames. The animation runs the nine frames 0 to 8; frame 9 of the shorter chart is
  never drawn.
\<close>

theorem animate_multiple_plots_ten_and_fifteen:
  "(case attrs_post_init ten_frames_chart of
      Inl e \<Rightarrow> False
    | Inr p \<Rightarrow>
        (case attrs_post_init fifteen_frames_chart of
           Inl e \<Rightarrow> False
         | Inr q \<Rightarrow>
             length (get_frames p) = 10 \<and> length (get_frames q) = 15
             \<and> frames_argument [p, q] = Inr 9
             \<and> map_sum id fst (animate_multiple_plots [p, q]) = Inr [0, 1, 2, 3, 4, 5, 6, 7, 8]))"
  by code_simp

text \<open>
  Claim C6 says that a chart with a sort other than \<^verbatim>\<open>asc\<close> and \<^verbatim>\<open>desc\<close>, or an
  orientation other than \<^verbatim>\<open>h\<close> and \<^verbatim>\<open>v\<close>, fails at construction with ValueError.
  \<^verbatim>\<open>validate_params\<close> does raise it, but the constructor never calls
  \<^verbatim>\<open>validate_params\<close>: with sort \<^verbatim>\<open>up\<close>, or with orientation \<^verbatim>\<open>x\<close>, construction succeeds
  and the data are prepared; sort \<^verbatim>\<open>up\<close> yields the rank frame of sort \<^verbatim>\<open>asc\<close>.
\<close>

theorem invalid_settings_are_constructed:
  "validate_params bad_sort_chart = Inl ValueError
   \<and> validate_params bad_orientation_chart = Inl ValueError
   \<and> \<not> isl (attrs_post_init bad_sort_chart)
   \<and> \<not> isl (attrs_post_init bad_orientation_chart)
   \<and> map_sum id df_rank (attrs_post_init bad_sort_chart)
       = map_sum id df_rank (attrs_post_init (two_rows_chart\<lparr>sort_param := ''asc''\<rparr>))"
  by code_simp



text \<open>
  Claim C8 says that non-numeric columns are dropped before data preparation and left
  out of the plot. \<^verbatim>\<open>get_data_cols\<close> finds the numeric columns, and \<^verbatim>\<open>LineChart\<close> calls
  it, but \<^verbatim>\<open>BarChart\<close> does not: for a table with a numeric column and a column of
  strings, the bar chart counts two columns, colors two columns, and prepares the whole
  table, which fails in \<^verbatim>\<open>rank\<close>.
\<close>

theorem mixed_table_columns_kept:
  "get_data_cols mixed_chart = Inr [''a'']
   \<and> LineChart_attrs_post_init mixed_line_chart = Inr [''a'']
   \<and> shape1 (df mixed_chart) = 2
   \<and> get_colors mixed_chart (cmap mixed_chart) = Inr [Hex ''c0'', Hex ''c1'']
   \<and> attrs_post_init mixed_chart = Inl TypeError"
  by code_simp

end
